theory Spec2Isabelle
  imports Main "HOL-Library.AList"
begin

section \<open>Python values used by \<open>request_utils\<close>\<close>

text \<open>
  The exceptions that can travel through the module: \<open>ValueError\<close> (\<open>max\<close> of an empty
  sequence, a malformed port), \<open>KeyError\<close> (a dict subscript), \<open>IndexError\<close> (a list
  subscript), \<open>InvalidKeyError\<close> (the course-key parser) and \<open>DisallowedHost\<close>
  (the framework's \<open>get_host\<close>).
\<close>

datatype error = ValueError | KeyError | IndexError | InvalidKeyError | DisallowedHost

text \<open>
  A Python dict keeps its keys in insertion order: an association list with distinct
  keys. Storing under a key that is present replaces the value where it stands, storing
  under a new key appends the pair.
\<close>

type_synonym ('k, 'v) dict = "('k \<times> 'v) list"

definition dict_setitem :: "('k, 'v) dict \<Rightarrow> 'k \<Rightarrow> 'v \<Rightarrow> ('k, 'v) dict" where
  "dict_setitem d k v = AList.update k v d"

definition dict_get :: "('k, 'v) dict \<Rightarrow> 'k \<Rightarrow> 'v \<Rightarrow> 'v" where
  "dict_get d k dflt = (case map_of d k of None \<Rightarrow> dflt | Some v \<Rightarrow> v)"

definition dict_getitem :: "('k, 'v) dict \<Rightarrow> 'k \<Rightarrow> error + 'v" where
  "dict_getitem d k = (case map_of d k of None \<Rightarrow> Inl KeyError | Some v \<Rightarrow> Inr v)"

definition dict_keys :: "('k, 'v) dict \<Rightarrow> 'k list" where
  "dict_keys d = map fst d"

definition dict_values :: "('k, 'v) dict \<Rightarrow> 'v list" where
  "dict_values d = map snd d"

definition dict_items :: "('k, 'v) dict \<Rightarrow> ('k \<times> 'v) list" where
  "dict_items d = d"

text \<open>
  \<open>max(iterable, key=f)\<close>: \<open>ValueError\<close> on an empty iterable; otherwise the first
  element whose key is the largest (a later element replaces the current best only when
  its key is strictly greater). An exception of the key function propagates.
\<close>

fun max_loop :: "('a \<Rightarrow> error + int) \<Rightarrow> 'a \<Rightarrow> int \<Rightarrow> 'a list \<Rightarrow> error + 'a" where
  "max_loop key best best_key [] = Inr best"
| "max_loop key best best_key (x # xs) =
     (case key x of
        Inl e \<Rightarrow> Inl e
      | Inr k \<Rightarrow> if best_key < k then max_loop key x k xs
                 else max_loop key best best_key xs)"

fun py_max :: "('a \<Rightarrow> error + int) \<Rightarrow> 'a list \<Rightarrow> error + 'a" where
  "py_max key [] = Inl ValueError"
| "py_max key (x # xs) =
     (case key x of Inl e \<Rightarrow> Inl e | Inr k \<Rightarrow> max_loop key x k xs)"

text \<open>\<open>xs[0]\<close>: the first element, \<open>IndexError\<close> on an empty list.\<close>

definition getitem0 :: "'a list \<Rightarrow> error + 'a" where
  "getitem0 xs = (case xs of [] \<Rightarrow> Inl IndexError | x # _ \<Rightarrow> Inr x)"

text \<open>
  \<open>re.split('[._]', name, 1)\<close>: at most one split, at the first character that is a
  period or an underscore; without such a character the list holds the name alone.
\<close>

definition is_separator :: "char \<Rightarrow> bool" where
  "is_separator c = (c = CHR ''.'' \<or> c = CHR ''_'')"

fun re_split_1 :: "string \<Rightarrow> string list" where
  "re_split_1 [] = [[]]"
| "re_split_1 (c # cs) =
     (if is_separator c then [[], cs]
      else (case re_split_1 cs of
              [] \<Rightarrow> []
            | p # rest \<Rightarrow> (c # p) # rest))"


section \<open>Requests, settings and the outside world\<close>

text \<open>
  The fields of a request that the module reads or sets. \<open>COOKIES\<close> is the dict of
  cookie names to cookie values; \<open>len(value)\<close> is the number of characters of the value.
\<close>

record http_request =
  REQUEST_METHOD :: string
  path :: string
  SERVER_NAME :: "string option"
  SERVER_PORT :: int
  COOKIES :: "(string, string) dict"

text \<open>
  \<open>settings.ALLOWED_HOSTS\<close> is whatever the deployment wrote: a list, a tuple, or a
  value of another type (a bare string, \<open>None\<close>).
\<close>

datatype py_setting =
    List_value "string list"
  | Tuple_value "string list"
  | String_value string
  | None_value

record settings =
  SITE_NAME :: string
  ALLOWED_HOSTS :: py_setting

definition isinstance_list_tuple :: "py_setting \<Rightarrow> bool" where
  "isinstance_list_tuple v =
     (case v of List_value _ \<Rightarrow> True | Tuple_value _ \<Rightarrow> True | _ \<Rightarrow> False)"

definition elements :: "py_setting \<Rightarrow> string list" where
  "elements v = (case v of List_value xs \<Rightarrow> xs | Tuple_value xs \<Rightarrow> xs | _ \<Rightarrow> [])"

text \<open>
  What \<open>urlparse\<close> gives back, as far as the module looks at it: the host name, and the
  port, whose property raises on a malformed port in some versions of the library.
\<close>

record parse_result =
  hostname :: "string option"
  port :: "error + int option"

text \<open>
  \<open>RequestFactory(SERVER_NAME=..., SERVER_PORT=...).get(path)\<close>: the keyword arguments
  of the factory are defaults of the request's environment. \<open>get\<close> then writes the
  entries of the request itself over them: the method \<open>GET\<close>, the path, and, the request
  not being secure, the port 80. So the port given to the factory is lost; the server
  name stays. The request carries no cookies.
\<close>

definition RequestFactory_get :: "string option \<Rightarrow> int \<Rightarrow> string \<Rightarrow> http_request" where
  "RequestFactory_get server_name server_port p =
     (let defaults = \<lparr>REQUEST_METHOD = ''GET'', path = ''/'', SERVER_NAME = server_name,
                       SERVER_PORT = server_port, COOKIES = []\<rparr>
      in defaults\<lparr>REQUEST_METHOD := ''GET'', path := p, SERVER_PORT := 80\<rparr>)"

text \<open>\<open>x or 80\<close> on an optional integer: \<open>None\<close> and \<open>0\<close> are both falsy.\<close>

definition or_80 :: "int option \<Rightarrow> int" where
  "or_80 p = (case p of None \<Rightarrow> 80 | Some n \<Rightarrow> if n = 0 then 80 else n)"


section \<open>\<open>get_request_or_stub\<close>\<close>

text \<open>
  \<open>crum.get_current_request()\<close> is the argument \<open>current_request\<close>, the library's
  \<open>urlparse\<close> the argument of that name.
\<close>

definition get_request_or_stub ::
  "http_request option \<Rightarrow> settings \<Rightarrow> (string \<Rightarrow> parse_result) \<Rightarrow> error + http_request" where
  "get_request_or_stub current_request conf urlparse =
     (case current_request of
        None \<Rightarrow>
          (let full_url = ''http://'' @ SITE_NAME conf;
               parsed_url = urlparse full_url
           in case port parsed_url of
                Inl e \<Rightarrow> Inl e
              | Inr p \<Rightarrow> Inr (RequestFactory_get (hostname parsed_url) (or_80 p) ''/''))
      | Some request \<Rightarrow> Inr request)"


section \<open>\<open>safe_get_host\<close>\<close>

text \<open>
  \<open>configuration_helpers.get_value\<close> and the request's \<open>get_host\<close> method are
  arguments; \<open>get_host\<close> may raise.
\<close>

definition safe_get_host ::
  "settings \<Rightarrow> (string \<Rightarrow> string \<Rightarrow> string) \<Rightarrow> ('r \<Rightarrow> error + string) \<Rightarrow> 'r \<Rightarrow> error + string" where
  "safe_get_host conf get_value get_host request =
     (if isinstance_list_tuple (ALLOWED_HOSTS conf) \<and> ''*'' \<notin> set (elements (ALLOWED_HOSTS conf))
      then get_host request
      else Inr (get_value ''site_domain'' (SITE_NAME conf)))"


section \<open>\<open>course_id_from_url\<close>\<close>

text \<open>
  \<open>COURSE_REGEX\<close> is built from the setting \<open>COURSE_ID_PATTERN\<close>, so its matcher is an
  argument: it gives no match, or a match whose group \<open>course_id\<close> holds a substring or
  did not take part. \<open>CourseKey.from_string\<close> is an argument too: it returns a key or
  raises.
\<close>

record re_match =
  group_course_id :: "string option"

definition course_id_from_url ::
  "(string \<Rightarrow> re_match option) \<Rightarrow> (string \<Rightarrow> error + 'key) \<Rightarrow> string option
     \<Rightarrow> error + 'key option" where
  "course_id_from_url COURSE_REGEX_match CourseKey_from_string url =
     (case url of
        None \<Rightarrow> Inr None
      | Some u \<Rightarrow>
          if u = [] then Inr None
          else (case COURSE_REGEX_match u of
                  None \<Rightarrow> Inr None
                | Some m \<Rightarrow>
                    (case group_course_id m of
                       None \<Rightarrow> Inr None
                     | Some course_id \<Rightarrow>
                         (case CourseKey_from_string course_id of
                            Inr k \<Rightarrow> Inr (Some k)
                          | Inl e \<Rightarrow> if e = InvalidKeyError then Inr None else Inl e))))"


section \<open>\<open>CookieMonitoringMiddleware.process_request\<close>\<close>

text \<open>
  The calls the middleware makes to the monitoring library and to the logger, in the
  order it makes them.
\<close>

datatype attr_value = Int_value int | Str_value string

datatype effect =
    Set_custom_attribute string attr_value
  | Log_debug string "attr_value list"

text \<open>
  The first loop: every cookie's size goes into \<open>cookie_names_to_size\<close>, and into the
  sum of its group when its name has a non-empty prefix before a separator.
\<close>

fun collect_sizes ::
  "(string \<times> string) list \<Rightarrow> (string, int) dict \<Rightarrow> (string, int) dict
     \<Rightarrow> error + ((string, int) dict \<times> (string, int) dict)" where
  "collect_sizes [] cookie_names_to_size cookie_groups_to_size =
     Inr (cookie_names_to_size, cookie_groups_to_size)"
| "collect_sizes ((name, val) # items) cookie_names_to_size cookie_groups_to_size =
     (let cookie_size = int (length val);
          names' = dict_setitem cookie_names_to_size name cookie_size
      in case getitem0 (re_split_1 name) of
           Inl e \<Rightarrow> Inl e
         | Inr grouping_name \<Rightarrow>
             if grouping_name \<noteq> [] \<and> grouping_name \<noteq> name
             then collect_sizes items names'
                    (dict_setitem cookie_groups_to_size grouping_name
                       (dict_get cookie_groups_to_size grouping_name 0 + cookie_size))
             else collect_sizes items names' cookie_groups_to_size)"

text \<open>\<open>'cookies.{}.group.size'.format(name)\<close>\<close>

definition group_attribute_name :: "string \<Rightarrow> string" where
  "group_attribute_name name = ''cookies.'' @ name @ ''.group.size''"

text \<open>The second loop: one attribute and one log line for each group.\<close>

fun emit_group_sizes :: "(string \<times> int) list \<Rightarrow> effect list" where
  "emit_group_sizes [] = []"
| "emit_group_sizes ((name, size') # items) =
     (let attribute_name = group_attribute_name name
      in Set_custom_attribute attribute_name (Int_value size')
         # Log_debug ''%s = %d'' [Str_value attribute_name, Int_value size']
         # emit_group_sizes items)"

text \<open>
  The method, given the state of the waffle flag. It returns \<open>None\<close> (here \<open>Inr ()\<close>) or
  raises, and the second component lists the calls made before that.
\<close>

definition process_request :: "bool \<Rightarrow> http_request \<Rightarrow> (error + unit) \<times> effect list" where
  "process_request capture_cookie_sizes request =
     (if \<not> capture_cookie_sizes then (Inr (), [])
      else
        case collect_sizes (dict_items (COOKIES request)) [] [] of
          Inl e \<Rightarrow> (Inl e, [])
        | Inr (cookie_names_to_size, cookie_groups_to_size) \<Rightarrow>
        case py_max (dict_getitem cookie_names_to_size) (dict_keys cookie_names_to_size) of
          Inl e \<Rightarrow> (Inl e, [])
        | Inr max_cookie_name \<Rightarrow>
        case dict_getitem cookie_names_to_size max_cookie_name of
          Inl e \<Rightarrow> (Inl e, [])
        | Inr max_cookie_size \<Rightarrow>
        case py_max (dict_getitem cookie_groups_to_size) (dict_keys cookie_groups_to_size) of
          Inl e \<Rightarrow> (Inl e, [])
        | Inr group_name \<Rightarrow>
        case dict_getitem cookie_groups_to_size group_name of
          Inl e \<Rightarrow> (Inl e, [])
        | Inr group_size \<Rightarrow>
          (let max_group_cookie_name =
                 (if group_size < max_cookie_size then max_cookie_name else group_name);
               max_group_cookie_size =
                 (if group_size < max_cookie_size then max_cookie_size else group_size);
               total_cookie_size = sum_list (dict_values cookie_names_to_size)
           in (Inr (),
               emit_group_sizes (dict_items cookie_groups_to_size)
               @ [Set_custom_attribute ''cookies.max.name'' (Str_value max_cookie_name),
                  Set_custom_attribute ''cookies.max.size'' (Int_value max_cookie_size),
                  Set_custom_attribute ''cookies.max.group.name'' (Str_value max_group_cookie_name),
                  Set_custom_attribute ''cookies.max.group.size'' (Int_value max_group_cookie_size),
                  Set_custom_attribute ''cookies_total_size'' (Int_value total_cookie_size),
                  Log_debug ''cookies_total_size = %d'' [Int_value total_cookie_size]])))"

text \<open>
  The attributes of the transaction after a sequence of calls: a later call for a name
  replaces the value of an earlier one.
\<close>

fun custom_attributes :: "effect list \<Rightarrow> string \<Rightarrow> attr_value option" where
  "custom_attributes [] a = None"
| "custom_attributes (Set_custom_attribute n v # es) a =
     (case custom_attributes es a of
        Some w \<Rightarrow> Some w
      | None \<Rightarrow> if n = a then Some v else None)"
| "custom_attributes (Log_debug _ _ # es) a = custom_attributes es a"

text \<open>
  The vocabulary of the statements below: a cookie's size, the prefix its name is
  grouped under, whether it is grouped at all, and the sum of a group.
\<close>

definition cookie_size :: "string \<times> string \<Rightarrow> int" where
  "cookie_size item = int (length (snd item))"

definition prefix_of :: "string \<Rightarrow> string" where
  "prefix_of name = takeWhile (\<lambda>c. c \<noteq> CHR ''.'' \<and> c \<noteq> CHR ''_'') name"

definition grouped :: "string \<Rightarrow> bool" where
  "grouped name = (prefix_of name \<noteq> [] \<and> prefix_of name \<noteq> name)"

definition members :: "(string \<times> string) list \<Rightarrow> string \<Rightarrow> (string \<times> string) list" where
  "members cookies g = filter (\<lambda>item. grouped (fst item) \<and> prefix_of (fst item) = g) cookies"

definition group_sum :: "(string \<times> string) list \<Rightarrow> string \<Rightarrow> int" where
  "group_sum cookies g = sum_list (map cookie_size (members cookies g))"

definition has_group :: "(string \<times> string) list \<Rightarrow> bool" where
  "has_group cookies = list_ex (\<lambda>item. grouped (fst item)) cookies"

definition group_names :: "(string \<times> string) list \<Rightarrow> string set" where
  "group_names cookies = set (map (\<lambda>item. prefix_of (fst item)) (filter (\<lambda>item. grouped (fst item)) cookies))"

definition largest_cookie_size :: "(string \<times> string) list \<Rightarrow> int" where
  "largest_cookie_size cookies = Max (set (map cookie_size cookies))"

definition largest_group_sum :: "(string \<times> string) list \<Rightarrow> int" where
  "largest_group_sum cookies = Max (group_sum cookies ` group_names cookies)"


section \<open>Facts about the two loops and \<open>max\<close>\<close>

lemma re_split_1_prefix: "\<exists>rest. re_split_1 name = prefix_of name # rest"
  by (induction name) (auto simp: prefix_of_def is_separator_def)

lemma getitem0_re_split_1: "getitem0 (re_split_1 name) = Inr (prefix_of name)"
  using re_split_1_prefix [of name] by (auto simp: getitem0_def)

lemma collect_sizes_step:
  "collect_sizes ((name, val) # items) ns gs =
     collect_sizes items (dict_setitem ns name (int (length val)))
       (if grouped name
        then dict_setitem gs (prefix_of name) (dict_get gs (prefix_of name) 0 + int (length val))
        else gs)"
  by (simp add: getitem0_re_split_1 grouped_def Let_def)

lemma collect_sizes_returns: "\<exists>ns' gs'. collect_sizes cs ns gs = Inr (ns', gs')"
proof (induction cs arbitrary: ns gs)
  case Nil
  show ?case by simp
next
  case (Cons item cs)
  obtain name val where item: "item = (name, val)" by (cases item)
  show ?case unfolding item collect_sizes_step by (rule Cons.IH)
qed

lemma collect_sizes_names:
  "collect_sizes cs ns gs = Inr (ns', gs') \<Longrightarrow> distinct (map fst cs) \<Longrightarrow>
   set (map fst cs) \<inter> set (map fst ns) = {} \<Longrightarrow>
   ns' = ns @ map (\<lambda>item. (fst item, cookie_size item)) cs"
proof (induction cs arbitrary: ns gs)
  case Nil
  then show ?case by simp
next
  case (Cons item cs)
  obtain name val where item: "item = (name, val)" by (cases item)
  have fresh: "name \<notin> fst ` set ns" using Cons.prems(3) by (auto simp: item)
  have upd: "dict_setitem ns name (int (length val)) = ns @ [(name, int (length val))]"
    using fresh by (induction ns) (auto simp: dict_setitem_def)
  from Cons.prems(1) have run:
    "collect_sizes cs (ns @ [(name, int (length val))])
       (if grouped name
        then dict_setitem gs (prefix_of name) (dict_get gs (prefix_of name) 0 + int (length val))
        else gs) = Inr (ns', gs')"
    by (simp only: item collect_sizes_step upd)
  have "ns' = (ns @ [(name, int (length val))]) @ map (\<lambda>item. (fst item, cookie_size item)) cs"
    using Cons.prems(2,3) by (intro Cons.IH [OF run]) (auto simp: item)
  then show ?case by (simp add: item cookie_size_def)
qed

lemma collect_sizes_keys:
  "collect_sizes cs ns gs = Inr (ns', gs') \<Longrightarrow> fst ` set ns' = fst ` set ns \<union> fst ` set cs"
proof (induction cs arbitrary: ns gs)
  case Nil
  then show ?case by simp
next
  case (Cons item cs)
  obtain name val where item: "item = (name, val)" by (cases item)
  from Cons.prems have "fst ` set ns' = fst ` set (dict_setitem ns name (int (length val))) \<union> fst ` set cs"
    unfolding item collect_sizes_step by (rule Cons.IH)
  then show ?case by (simp add: item dict_setitem_def dom_update)
qed

lemma collect_sizes_groups:
  "collect_sizes cs ns gs = Inr (ns', gs') \<Longrightarrow>
   map_of gs' g = (if map_of gs g = None \<and> members cs g = [] then None
                   else Some (dict_get gs g 0 + group_sum cs g))"
proof (induction cs arbitrary: ns gs)
  case Nil
  then show ?case by (auto simp: members_def group_sum_def dict_get_def)
next
  case (Cons item cs)
  obtain name val where item: "item = (name, val)" by (cases item)
  let ?gs1 = "if grouped name
        then dict_setitem gs (prefix_of name) (dict_get gs (prefix_of name) 0 + int (length val))
        else gs"
  from Cons.prems have IH: "map_of gs' g = (if map_of ?gs1 g = None \<and> members cs g = [] then None
                   else Some (dict_get ?gs1 g 0 + group_sum cs g))"
    unfolding item collect_sizes_step by (rule Cons.IH)
  show ?case
  proof (cases "grouped name \<and> prefix_of name = g")
    case True
    then show ?thesis using IH
      by (simp add: item dict_setitem_def update_conv' dict_get_def members_def group_sum_def cookie_size_def)
  next
    case False
    then have "map_of ?gs1 g = map_of gs g"
      by (auto simp: dict_setitem_def update_conv')
    moreover have "members (item # cs) g = members cs g"
      using False by (auto simp: members_def item)
    ultimately show ?thesis using IH
      by (simp add: dict_get_def group_sum_def)
  qed
qed

lemma collect_sizes_groups_distinct:
  "collect_sizes cs ns gs = Inr (ns', gs') \<Longrightarrow> distinct (map fst gs) \<Longrightarrow> distinct (map fst gs')"
proof (induction cs arbitrary: ns gs)
  case Nil
  then show ?case by simp
next
  case (Cons item cs)
  obtain name val where item: "item = (name, val)" by (cases item)
  show ?case
    by (rule Cons.IH [OF Cons.prems(1) [unfolded item collect_sizes_step]])
       (simp add: Cons.prems(2) dict_setitem_def distinct_update)
qed

lemma max_loop_greatest:
  "\<forall>x\<in>set xs. key x = Inr (f x) \<Longrightarrow> best_key = f best \<Longrightarrow>
   \<exists>m. max_loop key best best_key xs = Inr m \<and> m \<in> set (best # xs)
       \<and> (\<forall>x\<in>set (best # xs). f x \<le> f m)"
proof (induction xs arbitrary: best best_key)
  case Nil
  then show ?case by simp
next
  case (Cons x xs)
  show ?case
  proof (cases "best_key < f x")
    case True
    from Cons.prems have "\<exists>m. max_loop key x (f x) xs = Inr m \<and> m \<in> set (x # xs)
       \<and> (\<forall>y\<in>set (x # xs). f y \<le> f m)"
      by (intro Cons.IH) auto
    then show ?thesis using True Cons.prems by fastforce
  next
    case False
    from Cons.prems have "\<exists>m. max_loop key best best_key xs = Inr m \<and> m \<in> set (best # xs)
       \<and> (\<forall>y\<in>set (best # xs). f y \<le> f m)"
      by (intro Cons.IH) auto
    then show ?thesis using False Cons.prems by fastforce
  qed
qed

lemma py_max_greatest:
  "xs \<noteq> [] \<Longrightarrow> \<forall>x\<in>set xs. key x = Inr (f x) \<Longrightarrow>
   \<exists>m. py_max key xs = Inr m \<and> m \<in> set xs \<and> (\<forall>x\<in>set xs. f x \<le> f m)"
proof (cases xs)
  case Nil
  assume "xs \<noteq> []"
  with Nil show ?thesis by simp
next
  case (Cons x ys)
  assume keys: "\<forall>x\<in>set xs. key x = Inr (f x)"
  have "\<exists>m. max_loop key x (f x) ys = Inr m \<and> m \<in> set (x # ys)
       \<and> (\<forall>y\<in>set (x # ys). f y \<le> f m)"
    using keys Cons by (intro max_loop_greatest) auto
  then show ?thesis using keys Cons by auto
qed

lemma dict_getitem_key:
  "k \<in> fst ` set d \<Longrightarrow> dict_getitem d k = Inr (dict_get d k dflt)"
  by (auto simp: dict_getitem_def dict_get_def map_of_eq_None_iff split: option.splits)

lemma py_max_dict:
  assumes "d \<noteq> []"
  shows "\<exists>m. py_max (dict_getitem d) (dict_keys d) = Inr m \<and> m \<in> fst ` set d
       \<and> dict_getitem d m = Inr (dict_get d m 0)
       \<and> (\<forall>k\<in>fst ` set d. dict_get d k 0 \<le> dict_get d m 0)"
proof -
  have "dict_keys d \<noteq> []" using assms by (simp add: dict_keys_def)
  moreover have "\<forall>k\<in>set (dict_keys d). dict_getitem d k = Inr (dict_get d k 0)"
    by (simp add: dict_keys_def dict_getitem_key)
  ultimately obtain m where m: "py_max (dict_getitem d) (dict_keys d) = Inr m"
      "m \<in> set (dict_keys d)" "\<forall>k\<in>set (dict_keys d). dict_get d k 0 \<le> dict_get d m 0"
    using py_max_greatest [of "dict_keys d" "dict_getitem d" "\<lambda>k. dict_get d k 0"] by blast
  have "m \<in> fst ` set d" using m(2) by (simp add: dict_keys_def)
  moreover from this have "dict_getitem d m = Inr (dict_get d m 0)" by (rule dict_getitem_key)
  moreover have "\<forall>k\<in>fst ` set d. dict_get d k 0 \<le> dict_get d m 0"
    using m(3) by (simp add: dict_keys_def)
  ultimately show ?thesis using m(1) by blast
qed


lemma has_group_members: "has_group cs \<longleftrightarrow> (\<exists>g. members cs g \<noteq> [])"
  by (auto simp: has_group_def members_def list_ex_iff filter_empty_conv)

lemma collect_sizes_from_empty:
  assumes "collect_sizes cs [] [] = Inr (ns, gs)"
  shows "map_of gs g = (if members cs g = [] then None else Some (group_sum cs g))"
    and "distinct (map fst gs)"
    and "fst ` set ns = fst ` set cs"
    and "distinct (map fst cs) \<Longrightarrow> ns = map (\<lambda>item. (fst item, cookie_size item)) cs"
proof -
  show "map_of gs g = (if members cs g = [] then None else Some (group_sum cs g))"
    using collect_sizes_groups [OF assms, of g] by (simp add: dict_get_def)
  show "distinct (map fst gs)"
    using collect_sizes_groups_distinct [OF assms] by simp
  show "fst ` set ns = fst ` set cs"
    using collect_sizes_keys [OF assms] by simp
  show "ns = map (\<lambda>item. (fst item, cookie_size item)) cs" if "distinct (map fst cs)"
    using collect_sizes_names [OF assms that] by simp
qed

lemma process_request_ungrouped:
  assumes "\<not> has_group (COOKIES request)"
  shows "process_request True request = (Inl ValueError, [])"
proof -
  obtain ns gs where run: "collect_sizes (COOKIES request) [] [] = Inr (ns, gs)"
    using collect_sizes_returns by blast
  have "map_of gs g = None" for g
    using collect_sizes_from_empty(1) [OF run, of g] assms by (simp add: has_group_members)
  then have "fst ` set gs = {}"
    by (metis all_not_in_conv map_of_eq_None_iff)
  then have gs: "gs = []" by simp
  show ?thesis
  proof (cases "ns = []")
    case True
    then show ?thesis by (simp add: process_request_def dict_items_def run dict_keys_def)
  next
    case False
    then obtain m where "py_max (dict_getitem ns) (dict_keys ns) = Inr m"
        "dict_getitem ns m = Inr (dict_get ns m 0)"
      using py_max_dict by blast
    then show ?thesis by (simp add: process_request_def dict_items_def run gs dict_keys_def)
  qed
qed

lemma map_of_sizes:
  "distinct (map fst cs) \<Longrightarrow> (n, v) \<in> set cs \<Longrightarrow>
   map_of (map (\<lambda>item. (fst item, cookie_size item)) cs) n = Some (cookie_size (n, v))"
  by (induction cs) (auto simp: rev_image_eqI)

lemma process_request_grouped:
  assumes dist: "distinct (map fst (COOKIES request))"
    and grp: "has_group (COOKIES request)"
  obtains gs mname mval gname where
    "process_request True request =
       (Inr (),
        emit_group_sizes gs
        @ [Set_custom_attribute ''cookies.max.name'' (Str_value mname),
           Set_custom_attribute ''cookies.max.size'' (Int_value (cookie_size (mname, mval))),
           Set_custom_attribute ''cookies.max.group.name''
             (Str_value (if group_sum (COOKIES request) gname < cookie_size (mname, mval)
                         then mname else gname)),
           Set_custom_attribute ''cookies.max.group.size''
             (Int_value (if group_sum (COOKIES request) gname < cookie_size (mname, mval)
                         then cookie_size (mname, mval) else group_sum (COOKIES request) gname)),
           Set_custom_attribute ''cookies_total_size''
             (Int_value (sum_list (map cookie_size (COOKIES request)))),
           Log_debug ''cookies_total_size = %d''
             [Int_value (sum_list (map cookie_size (COOKIES request)))]])"
    "distinct (map fst gs)"
    "\<And>g. map_of gs g = (if members (COOKIES request) g = [] then None
                         else Some (group_sum (COOKIES request) g))"
    "(mname, mval) \<in> set (COOKIES request)"
    "\<And>item. item \<in> set (COOKIES request) \<Longrightarrow> cookie_size item \<le> cookie_size (mname, mval)"
    "members (COOKIES request) gname \<noteq> []"
    "\<And>g. members (COOKIES request) g \<noteq> [] \<Longrightarrow>
          group_sum (COOKIES request) g \<le> group_sum (COOKIES request) gname"
proof -
  let ?cs = "COOKIES request"
  obtain ns gs where run: "collect_sizes ?cs [] [] = Inr (ns, gs)"
    using collect_sizes_returns by blast
  note facts = collect_sizes_from_empty [OF run]
  have ns: "ns = map (\<lambda>item. (fst item, cookie_size item)) ?cs"
    using facts(4) dist by simp
  have size_of: "dict_get ns n 0 = cookie_size (n, v)" if "(n, v) \<in> set ?cs" for n v
    using map_of_sizes [OF dist that] by (simp add: dict_get_def ns)
  have gmap: "map_of gs g = (if members ?cs g = [] then None else Some (group_sum ?cs g))" for g
    by (rule facts(1))
  have sum_of: "dict_get gs g 0 = group_sum ?cs g" if "members ?cs g \<noteq> []" for g
    using gmap [of g] that by (simp add: dict_get_def)
  have key_of: "g \<in> fst ` set gs \<longleftrightarrow> members ?cs g \<noteq> []" for g
    using gmap [of g] by (metis map_of_eq_None_iff option.distinct(1))
  obtain g0 where "members ?cs g0 \<noteq> []" using grp by (auto simp: has_group_members)
  then have "gs \<noteq> []" using key_of [of g0] by auto
  then obtain gname where gname: "py_max (dict_getitem gs) (dict_keys gs) = Inr gname"
      "gname \<in> fst ` set gs" "dict_getitem gs gname = Inr (dict_get gs gname 0)"
      "\<forall>k\<in>fst ` set gs. dict_get gs k 0 \<le> dict_get gs gname 0"
    using py_max_dict by blast
  have "?cs \<noteq> []" using \<open>members ?cs g0 \<noteq> []\<close> by (auto simp: members_def)
  then have "ns \<noteq> []" by (simp add: ns)
  then obtain mname where mname: "py_max (dict_getitem ns) (dict_keys ns) = Inr mname"
      "mname \<in> fst ` set ns" "dict_getitem ns mname = Inr (dict_get ns mname 0)"
      "\<forall>k\<in>fst ` set ns. dict_get ns k 0 \<le> dict_get ns mname 0"
    using py_max_dict by blast
  from mname(2) obtain mval where mval: "(mname, mval) \<in> set ?cs"
    unfolding facts(3) by auto
  have msize: "dict_get ns mname 0 = cookie_size (mname, mval)"
    by (rule size_of [OF mval])
  have gmem: "members ?cs gname \<noteq> []" using gname(2) key_of by simp
  have gsize: "dict_get gs gname 0 = group_sum ?cs gname"
    by (rule sum_of [OF gmem])
  have total: "sum_list (dict_values ns) = sum_list (map cookie_size ?cs)"
    by (simp add: ns dict_values_def comp_def)
  have eq: "process_request True request =
       (Inr (),
        emit_group_sizes gs
        @ [Set_custom_attribute ''cookies.max.name'' (Str_value mname),
           Set_custom_attribute ''cookies.max.size'' (Int_value (cookie_size (mname, mval))),
           Set_custom_attribute ''cookies.max.group.name''
             (Str_value (if group_sum ?cs gname < cookie_size (mname, mval)
                         then mname else gname)),
           Set_custom_attribute ''cookies.max.group.size''
             (Int_value (if group_sum ?cs gname < cookie_size (mname, mval)
                         then cookie_size (mname, mval) else group_sum ?cs gname)),
           Set_custom_attribute ''cookies_total_size''
             (Int_value (sum_list (map cookie_size ?cs))),
           Log_debug ''cookies_total_size = %d''
             [Int_value (sum_list (map cookie_size ?cs))]])"
    by (simp add: process_request_def dict_items_def run mname(1,3) gname(1,3) msize gsize total
        Let_def)
  have le_m: "cookie_size item \<le> cookie_size (mname, mval)" if "item \<in> set ?cs" for item
  proof -
    obtain n v where item: "item = (n, v)" by (cases item)
    have "n \<in> fst ` set ns" using that unfolding facts(3) item by force
    then have "dict_get ns n 0 \<le> dict_get ns mname 0" using mname(4) by blast
    then show ?thesis using size_of [of n v] that msize by (simp add: item)
  qed
  have le_g: "group_sum ?cs g \<le> group_sum ?cs gname" if "members ?cs g \<noteq> []" for g
  proof -
    have "g \<in> fst ` set gs" using that key_of by simp
    then have "dict_get gs g 0 \<le> dict_get gs gname 0" using gname(4) by blast
    then show ?thesis using sum_of [OF that] gsize by simp
  qed
  show thesis
    by (rule that [OF eq facts(2) gmap mval le_m gmem le_g])
qed


lemma custom_attributes_append:
  "custom_attributes (xs @ ys) a =
     (case custom_attributes ys a of Some w \<Rightarrow> Some w | None \<Rightarrow> custom_attributes xs a)"
proof (induction xs)
  case Nil
  show ?case by (simp split: option.splits)
next
  case (Cons e xs)
  then show ?case by (cases e) (simp_all split: option.splits)
qed

lemma group_attribute_name_inject [simp]:
  "group_attribute_name g = group_attribute_name g' \<longleftrightarrow> g = g'"
  by (simp add: group_attribute_name_def)

lemma emit_group_sizes_set:
  "Set_custom_attribute a v \<in> set (emit_group_sizes gs) \<longleftrightarrow>
     (\<exists>g s. (g, s) \<in> set gs \<and> a = group_attribute_name g \<and> v = Int_value s)"
  by (induction gs) (auto simp: Let_def)

lemma group_attribute_not_max_name [simp]: "group_attribute_name g \<noteq> ''cookies.max.name''"
proof
  assume "group_attribute_name g = ''cookies.max.name''"
  then have "length (group_attribute_name g) = length ''cookies.max.name''" by (rule arg_cong)
  then show False by (simp add: group_attribute_name_def)
qed

lemma group_attribute_not_max_size [simp]: "group_attribute_name g \<noteq> ''cookies.max.size''"
proof
  assume "group_attribute_name g = ''cookies.max.size''"
  then have "length (group_attribute_name g) = length ''cookies.max.size''" by (rule arg_cong)
  then show False by (simp add: group_attribute_name_def)
qed

lemma group_attribute_not_max_group_name [simp]:
  "group_attribute_name g \<noteq> ''cookies.max.group.name''"
proof
  assume "group_attribute_name g = ''cookies.max.group.name''"
  then have "rev (group_attribute_name g) = rev ''cookies.max.group.name''" by (rule arg_cong)
  then show False by (simp add: group_attribute_name_def)
qed

lemma group_attribute_not_total [simp]: "group_attribute_name g \<noteq> ''cookies_total_size''"
  by (simp add: group_attribute_name_def)

lemma group_attribute_max_group_size [simp]:
  "group_attribute_name g = ''cookies.max.group.size'' \<longleftrightarrow> g = ''max''"
proof -
  have "''cookies.max.group.size'' = group_attribute_name ''max''"
    by (simp add: group_attribute_name_def)
  then show ?thesis by (simp only: group_attribute_name_inject)
qed

lemma members_group_names: "members cs g = [] \<longleftrightarrow> g \<notin> group_names cs"
  by (auto simp: members_def group_names_def filter_empty_conv)

lemma largest_cookie_size_eq:
  assumes "(mname, mval) \<in> set cs"
    and "\<And>item. item \<in> set cs \<Longrightarrow> cookie_size item \<le> cookie_size (mname, mval)"
  shows "largest_cookie_size cs = cookie_size (mname, mval)"
  unfolding largest_cookie_size_def
proof (rule Max_eqI)
  show "finite (set (map cookie_size cs))" by simp
  show "y \<le> cookie_size (mname, mval)" if "y \<in> set (map cookie_size cs)" for y
    using that assms(2) by auto
  show "cookie_size (mname, mval) \<in> set (map cookie_size cs)"
    using assms(1) by force
qed

lemma largest_group_sum_eq:
  assumes "members cs gname \<noteq> []"
    and "\<And>g. members cs g \<noteq> [] \<Longrightarrow> group_sum cs g \<le> group_sum cs gname"
  shows "largest_group_sum cs = group_sum cs gname"
  unfolding largest_group_sum_def
proof (rule Max_eqI)
  show "finite (group_sum cs ` group_names cs)" by (simp add: group_names_def)
  show "y \<le> group_sum cs gname" if "y \<in> group_sum cs ` group_names cs" for y
    using that assms(2) by (auto simp: members_group_names)
  show "group_sum cs gname \<in> group_sum cs ` group_names cs"
    using assms(1) by (simp add: members_group_names)
qed

lemma prefix_of_before_separator:
  "(\<forall>c\<in>set (prefix_of name). c \<noteq> CHR ''.'' \<and> c \<noteq> CHR ''_'')
   \<and> (prefix_of name = name
      \<or> (\<exists>sep rest. name = prefix_of name @ sep # rest \<and> (sep = CHR ''.'' \<or> sep = CHR ''_'')))"
proof (induction name)
  case Nil
  show ?case by (simp add: prefix_of_def)
next
  case (Cons c cs)
  show ?case
  proof (cases "c = CHR ''.'' \<or> c = CHR ''_''")
    case True
    then show ?thesis by (auto simp: prefix_of_def)
  next
    case False
    then have "prefix_of (c # cs) = c # prefix_of cs" by (simp add: prefix_of_def)
    then show ?thesis using Cons.IH False by auto
  qed
qed

lemma prefix_of_no_separator:
  "\<forall>c\<in>set name. c \<noteq> CHR ''.'' \<and> c \<noteq> CHR ''_'' \<Longrightarrow> prefix_of name = name"
  by (simp add: prefix_of_def)


section \<open>Cookie groups\<close>

text \<open>
  C5. In \<open>process_request\<close> the grouping prefix of a cookie name is the part before its
  first period or underscore (the whole name when it has neither). A cookie is a member
  of the group of its prefix exactly when the prefix is non-empty and differs from the
  name, so a cookie whose name has no separator is a member of no group. After the first
  loop the dict of groups holds, for every prefix that has a member, the sum of the sizes
  of exactly its members, and no other key. For every group the method sets the
  attribute \<open>cookies.<prefix>.group.size\<close> to that sum. An attribute of that form is set
  for a group, with that sum, and in one more case only: whenever there is a group at
  all, the summary attribute \<open>cookies.max.group.size\<close> is set to the larger of the
  largest cookie size and the largest group sum, whether or not a group is named
  \<open>max\<close>.
\<close>

theorem groups_by_prefix:
  assumes "distinct (map fst (COOKIES request))"
  shows
    "getitem0 (re_split_1 name) = Inr (prefix_of name)
   \<and> (\<forall>c\<in>set (prefix_of name). c \<noteq> CHR ''.'' \<and> c \<noteq> CHR ''_'')
   \<and> (prefix_of name = name
      \<or> (\<exists>sep rest. name = prefix_of name @ sep # rest \<and> (sep = CHR ''.'' \<or> sep = CHR ''_'')))
   \<and> (\<forall>g. set (members (COOKIES request) g) =
           {item \<in> set (COOKIES request).
              prefix_of (fst item) = g \<and> g \<noteq> [] \<and> g \<noteq> fst item})
   \<and> ((\<forall>c\<in>set name. c \<noteq> CHR ''.'' \<and> c \<noteq> CHR ''_'') \<longrightarrow>
        (\<forall>g v. (name, v) \<notin> set (members (COOKIES request) g)))
   \<and> (\<exists>names groups.
        collect_sizes (dict_items (COOKIES request)) [] [] = Inr (names, groups)
        \<and> distinct (map fst groups)
        \<and> (\<forall>g. map_of groups g =
              (if g \<in> group_names (COOKIES request)
               then Some (sum_list (map cookie_size (members (COOKIES request) g)))
               else None)))
   \<and> (\<forall>g\<in>group_names (COOKIES request).
        Set_custom_attribute (group_attribute_name g)
          (Int_value (sum_list (map cookie_size (members (COOKIES request) g))))
        \<in> set (snd (process_request True request)))
   \<and> (\<forall>g v. Set_custom_attribute (group_attribute_name g) v
              \<in> set (snd (process_request True request))
        \<longleftrightarrow> (g \<in> group_names (COOKIES request)
              \<and> v = Int_value (sum_list (map cookie_size (members (COOKIES request) g))))
          \<or> (g = ''max'' \<and> group_names (COOKIES request) \<noteq> {}
              \<and> v = Int_value (max (largest_cookie_size (COOKIES request))
                                    (largest_group_sum (COOKIES request)))))"
proof -
  let ?cs = "COOKIES request"
  let ?tr = "snd (process_request True request)"
  have 1: "getitem0 (re_split_1 name) = Inr (prefix_of name)"
    by (rule getitem0_re_split_1)
  note 2 = prefix_of_before_separator [of name]
  have 3: "\<forall>g. set (members ?cs g) =
           {item \<in> set ?cs. prefix_of (fst item) = g \<and> g \<noteq> [] \<and> g \<noteq> fst item}"
    by (auto simp: members_def grouped_def)
  have 4: "(\<forall>c\<in>set name. c \<noteq> CHR ''.'' \<and> c \<noteq> CHR ''_'') \<longrightarrow>
        (\<forall>g v. (name, v) \<notin> set (members ?cs g))"
    using prefix_of_no_separator [of name] by (auto simp: members_def grouped_def)
  obtain ns gs where run: "collect_sizes ?cs [] [] = Inr (ns, gs)"
    using collect_sizes_returns by blast
  have gmap: "map_of gs g = (if g \<in> group_names ?cs then Some (group_sum ?cs g) else None)" for g
    using collect_sizes_from_empty(1) [OF run, of g] by (simp add: members_group_names)
  have gdist: "distinct (map fst gs)" by (rule collect_sizes_from_empty(2) [OF run])
  have 5: "\<exists>names groups.
        collect_sizes (dict_items ?cs) [] [] = Inr (names, groups)
        \<and> distinct (map fst groups)
        \<and> (\<forall>g. map_of groups g =
              (if g \<in> group_names ?cs
               then Some (sum_list (map cookie_size (members ?cs g)))
               else None))"
    using run gdist gmap unfolding dict_items_def group_sum_def by blast
  have emitted: "Set_custom_attribute (group_attribute_name g) v \<in> set ?tr \<longleftrightarrow>
         (g \<in> group_names ?cs \<and> v = Int_value (group_sum ?cs g))
       \<or> (g = ''max'' \<and> group_names ?cs \<noteq> {}
           \<and> v = Int_value (max (largest_cookie_size ?cs) (largest_group_sum ?cs)))" for g v
  proof (cases "has_group ?cs")
    case False
    then have "group_names ?cs = {}"
      by (auto simp: has_group_members members_group_names)
    then show ?thesis using False by (simp add: process_request_ungrouped)
  next
    case True
    then have nonempty: "group_names ?cs \<noteq> {}"
      by (auto simp: has_group_members members_group_names)
    obtain gs' mname mval gname where run':
      "process_request True request =
       (Inr (),
        emit_group_sizes gs'
        @ [Set_custom_attribute ''cookies.max.name'' (Str_value mname),
           Set_custom_attribute ''cookies.max.size'' (Int_value (cookie_size (mname, mval))),
           Set_custom_attribute ''cookies.max.group.name''
             (Str_value (if group_sum ?cs gname < cookie_size (mname, mval)
                         then mname else gname)),
           Set_custom_attribute ''cookies.max.group.size''
             (Int_value (if group_sum ?cs gname < cookie_size (mname, mval)
                         then cookie_size (mname, mval) else group_sum ?cs gname)),
           Set_custom_attribute ''cookies_total_size''
             (Int_value (sum_list (map cookie_size ?cs))),
           Log_debug ''cookies_total_size = %d''
             [Int_value (sum_list (map cookie_size ?cs))]])"
      and dist': "distinct (map fst gs')"
      and gmap': "\<And>g. map_of gs' g = (if members ?cs g = [] then None
                         else Some (group_sum ?cs g))"
      and mval: "(mname, mval) \<in> set ?cs"
      and le_m: "\<And>item. item \<in> set ?cs \<Longrightarrow> cookie_size item \<le> cookie_size (mname, mval)"
      and gmem: "members ?cs gname \<noteq> []"
      and le_g: "\<And>g. members ?cs g \<noteq> [] \<Longrightarrow> group_sum ?cs g \<le> group_sum ?cs gname"
      using process_request_grouped [OF assms True] by metis
    have M: "largest_cookie_size ?cs = cookie_size (mname, mval)"
      using mval le_m by (rule largest_cookie_size_eq)
    have G: "largest_group_sum ?cs = group_sum ?cs gname"
      using gmem le_g by (rule largest_group_sum_eq)
    have summary: "(if group_sum ?cs gname < cookie_size (mname, mval)
                    then cookie_size (mname, mval) else group_sum ?cs gname)
                   = max (largest_cookie_size ?cs) (largest_group_sum ?cs)"
      unfolding M G by simp
    have in_loop: "Set_custom_attribute (group_attribute_name g) w
          \<in> set (emit_group_sizes gs') \<longleftrightarrow>
        g \<in> group_names ?cs \<and> w = Int_value (group_sum ?cs g)" for w
    proof -
      have mem: "(g, s) \<in> set gs' \<longleftrightarrow> g \<in> group_names ?cs \<and> s = group_sum ?cs g" for s
        using gmap' [of g] map_of_eq_Some_iff [OF dist', of g s]
        by (auto simp: members_group_names split: if_splits)
      have "(\<exists>g' s. (g', s) \<in> set gs' \<and> group_attribute_name g = group_attribute_name g'
               \<and> w = Int_value s) \<longleftrightarrow>
            (\<exists>s. (g, s) \<in> set gs' \<and> w = Int_value s)"
        by auto
      then show ?thesis unfolding emit_group_sizes_set by (simp add: mem)
    qed
    have tr: "set ?tr = set (emit_group_sizes gs')
       \<union> {Set_custom_attribute ''cookies.max.name'' (Str_value mname),
           Set_custom_attribute ''cookies.max.size'' (Int_value (cookie_size (mname, mval))),
           Set_custom_attribute ''cookies.max.group.name''
             (Str_value (if group_sum ?cs gname < cookie_size (mname, mval)
                         then mname else gname)),
           Set_custom_attribute ''cookies.max.group.size''
             (Int_value (max (largest_cookie_size ?cs) (largest_group_sum ?cs))),
           Set_custom_attribute ''cookies_total_size''
             (Int_value (sum_list (map cookie_size ?cs))),
           Log_debug ''cookies_total_size = %d''
             [Int_value (sum_list (map cookie_size ?cs))]}"
      unfolding run' summary [symmetric] by simp
    have "Set_custom_attribute (group_attribute_name g) v \<in> set ?tr \<longleftrightarrow>
         (g \<in> group_names ?cs \<and> v = Int_value (group_sum ?cs g))
       \<or> (g = ''max''
           \<and> v = Int_value (max (largest_cookie_size ?cs) (largest_group_sum ?cs)))"
      unfolding tr by (auto simp: in_loop)
    then show ?thesis using nonempty by simp
  qed
  have 6: "\<forall>g\<in>group_names ?cs.
        Set_custom_attribute (group_attribute_name g)
          (Int_value (sum_list (map cookie_size (members ?cs g)))) \<in> set ?tr"
    using emitted unfolding group_sum_def by blast
  have 7: "\<forall>g v. Set_custom_attribute (group_attribute_name g) v \<in> set ?tr
        \<longleftrightarrow> (g \<in> group_names ?cs
              \<and> v = Int_value (sum_list (map cookie_size (members ?cs g))))
          \<or> (g = ''max'' \<and> group_names ?cs \<noteq> {}
              \<and> v = Int_value (max (largest_cookie_size ?cs) (largest_group_sum ?cs)))"
    using emitted unfolding group_sum_def by blast
  show ?thesis
    by (intro conjI 1 conjunct1 [OF 2] conjunct2 [OF 2] 3 4 5 6 7)
qed

theorem groups_by_prefix_witness:
  "distinct (map fst (COOKIES \<lparr>REQUEST_METHOD = ''GET'', path = ''/'', SERVER_NAME = Some ''localhost'',
        SERVER_PORT = 80,
        COOKIES = [(''sessionid'', ''abcdef''), (''ab.x'', ''12''), (''ab_y'', ''345'')]\<rparr>))
   \<and> ''ab'' \<in> group_names [(''sessionid'', ''abcdef''), (''ab.x'', ''12''), (''ab_y'', ''345'')]
   \<and> Set_custom_attribute ''cookies.ab.group.size'' (Int_value 5)
       \<in> set (snd (process_request True
            \<lparr>REQUEST_METHOD = ''GET'', path = ''/'', SERVER_NAME = Some ''localhost'', SERVER_PORT = 80,
             COOKIES = [(''sessionid'', ''abcdef''), (''ab.x'', ''12''), (''ab_y'', ''345'')]\<rparr>))"
proof -
  let ?cs = "[(''sessionid'', ''abcdef''), (''ab.x'', ''12''), (''ab_y'', ''345'')]"
  let ?r = "\<lparr>REQUEST_METHOD = ''GET'', path = ''/'', SERVER_NAME = Some ''localhost'',
        SERVER_PORT = 80, COOKIES = ?cs\<rparr>"
  have h: "distinct (map fst (COOKIES ?r))" by simp
  have g: "''ab'' \<in> group_names (COOKIES ?r)"
    by (simp add: group_names_def grouped_def prefix_of_def)
  have s: "sum_list (map cookie_size (members (COOKIES ?r) ''ab'')) = 5"
    by (simp add: members_def grouped_def prefix_of_def cookie_size_def)
  have n: "group_attribute_name ''ab'' = ''cookies.ab.group.size''"
    by (simp add: group_attribute_name_def)
  have "\<forall>g\<in>group_names (COOKIES ?r).
        Set_custom_attribute (group_attribute_name g)
          (Int_value (sum_list (map cookie_size (members (COOKIES ?r) g))))
        \<in> set (snd (process_request True ?r))"
    using groups_by_prefix [OF h, of "''ab.x''"] by (elim conjE)
  then have "Set_custom_attribute (group_attribute_name ''ab'')
          (Int_value (sum_list (map cookie_size (members (COOKIES ?r) ''ab''))))
        \<in> set (snd (process_request True ?r))"
    using g by (rule bspec)
  then have "Set_custom_attribute ''cookies.ab.group.size'' (Int_value 5)
        \<in> set (snd (process_request True ?r))"
    by (simp only: s n)
  with h g show ?thesis by simp
qed


text \<open>
  The last case is real: with the cookies \<open>max\<close> (four characters) and \<open>ab.x\<close> (one
  character) the only group is \<open>ab\<close>, the cookie \<open>max\<close> belongs to no group, and the
  attribute \<open>cookies.max.group.size\<close> is set, to 4.
\<close>

theorem group_size_attribute_without_group:
  "Set_custom_attribute (group_attribute_name ''max'') (Int_value 4)
     \<in> set (snd (process_request True
          \<lparr>REQUEST_METHOD = ''GET'', path = ''/'', SERVER_NAME = Some ''localhost'',
      SERVER_PORT = 80, COOKIES = [(''max'', ''aaaa''), (''ab.x'', ''1'')]\<rparr>))
   \<and> ''max'' \<notin> group_names [(''max'', ''aaaa''), (''ab.x'', ''1'')]
   \<and> \<not> grouped ''max''"
  by (simp add: process_request_def dict_items_def dict_keys_def dict_setitem_def
      dict_getitem_def dict_get_def dict_values_def getitem0_def is_separator_def
      group_attribute_name_def group_names_def grouped_def prefix_of_def)


section \<open>The largest group\<close>

text \<open>
  When some cookie of the request belongs to a group, \<open>process_request\<close> returns
  normally and reports as \<open>cookies.max.group.name\<close> and \<open>cookies.max.group.size\<close>: the
  largest single cookie and its size when that size is strictly greater than the largest
  sum of a group; a group with the largest sum, and that sum, otherwise (so on a tie the
  group). Then the reported size is at least \<open>cookies.max.size\<close> and at least the sum
  of every group.
\<close>

theorem max_group_reported:
  assumes "distinct (map fst (COOKIES request))" and "has_group (COOKIES request)"
  shows "\<exists>name sz.
      fst (process_request True request) = Inr ()
    \<and> custom_attributes (snd (process_request True request)) ''cookies.max.group.name''
        = Some (Str_value name)
    \<and> custom_attributes (snd (process_request True request)) ''cookies.max.group.size''
        = Some (Int_value sz)
    \<and> custom_attributes (snd (process_request True request)) ''cookies.max.size''
        = Some (Int_value (largest_cookie_size (COOKIES request)))
    \<and> (if largest_group_sum (COOKIES request) < largest_cookie_size (COOKIES request)
       then sz = largest_cookie_size (COOKIES request)
          \<and> (\<exists>v. (name, v) \<in> set (COOKIES request) \<and> cookie_size (name, v) = sz)
       else sz = largest_group_sum (COOKIES request)
          \<and> name \<in> group_names (COOKIES request) \<and> group_sum (COOKIES request) name = sz)
    \<and> largest_cookie_size (COOKIES request) \<le> sz
    \<and> (\<forall>g\<in>group_names (COOKIES request). group_sum (COOKIES request) g \<le> sz)"
proof -
  let ?cs = "COOKIES request"
  obtain gs mname mval gname where run:
    "process_request True request =
       (Inr (),
        emit_group_sizes gs
        @ [Set_custom_attribute ''cookies.max.name'' (Str_value mname),
           Set_custom_attribute ''cookies.max.size'' (Int_value (cookie_size (mname, mval))),
           Set_custom_attribute ''cookies.max.group.name''
             (Str_value (if group_sum ?cs gname < cookie_size (mname, mval)
                         then mname else gname)),
           Set_custom_attribute ''cookies.max.group.size''
             (Int_value (if group_sum ?cs gname < cookie_size (mname, mval)
                         then cookie_size (mname, mval) else group_sum ?cs gname)),
           Set_custom_attribute ''cookies_total_size''
             (Int_value (sum_list (map cookie_size ?cs))),
           Log_debug ''cookies_total_size = %d''
             [Int_value (sum_list (map cookie_size ?cs))]])"
    and mval: "(mname, mval) \<in> set ?cs"
    and le_m: "\<And>item. item \<in> set ?cs \<Longrightarrow> cookie_size item \<le> cookie_size (mname, mval)"
    and gmem: "members ?cs gname \<noteq> []"
    and le_g: "\<And>g. members ?cs g \<noteq> [] \<Longrightarrow> group_sum ?cs g \<le> group_sum ?cs gname"
    using process_request_grouped [OF assms] by metis
  have M: "largest_cookie_size ?cs = cookie_size (mname, mval)"
    using mval le_m by (rule largest_cookie_size_eq)
  have G: "largest_group_sum ?cs = group_sum ?cs gname"
    using gmem le_g by (rule largest_group_sum_eq)
  let ?name = "if group_sum ?cs gname < cookie_size (mname, mval) then mname else gname"
  let ?sz = "if group_sum ?cs gname < cookie_size (mname, mval)
             then cookie_size (mname, mval) else group_sum ?cs gname"
  have 1: "fst (process_request True request) = Inr ()" by (simp add: run)
  have 2: "custom_attributes (snd (process_request True request)) ''cookies.max.group.name''
        = Some (Str_value ?name)"
    by (simp add: run custom_attributes_append)
  have 3: "custom_attributes (snd (process_request True request)) ''cookies.max.group.size''
        = Some (Int_value ?sz)"
    by (simp add: run custom_attributes_append)
  have 4: "custom_attributes (snd (process_request True request)) ''cookies.max.size''
        = Some (Int_value (largest_cookie_size ?cs))"
    by (simp add: run custom_attributes_append M)
  have 5: "if largest_group_sum ?cs < largest_cookie_size ?cs
       then ?sz = largest_cookie_size ?cs
          \<and> (\<exists>v. (?name, v) \<in> set ?cs \<and> cookie_size (?name, v) = ?sz)
       else ?sz = largest_group_sum ?cs
          \<and> ?name \<in> group_names ?cs \<and> group_sum ?cs ?name = ?sz"
    using mval gmem by (auto simp: M G members_group_names)
  have 6: "largest_cookie_size ?cs \<le> ?sz" by (simp add: M)
  have 7: "\<forall>g\<in>group_names ?cs. group_sum ?cs g \<le> ?sz"
    using le_g by (fastforce simp: members_group_names)
  from 1 2 3 4 5 6 7 show ?thesis by blast
qed


theorem max_group_reported_witness:
  "distinct (map fst (COOKIES \<lparr>REQUEST_METHOD = ''GET'', path = ''/'', SERVER_NAME = Some ''localhost'',
        SERVER_PORT = 80,
        COOKIES = [(''sessionid'', ''abcdef''), (''ab.x'', ''12''), (''ab_y'', ''3456'')]\<rparr>))
   \<and> has_group [(''sessionid'', ''abcdef''), (''ab.x'', ''12''), (''ab_y'', ''3456'')]
   \<and> custom_attributes (snd (process_request True
        \<lparr>REQUEST_METHOD = ''GET'', path = ''/'', SERVER_NAME = Some ''localhost'', SERVER_PORT = 80,
         COOKIES = [(''sessionid'', ''abcdef''), (''ab.x'', ''12''), (''ab_y'', ''3456'')]\<rparr>))
        ''cookies.max.group.name'' = Some (Str_value ''ab'')
   \<and> custom_attributes (snd (process_request True
        \<lparr>REQUEST_METHOD = ''GET'', path = ''/'', SERVER_NAME = Some ''localhost'', SERVER_PORT = 80,
         COOKIES = [(''sessionid'', ''abcdef''), (''ab.x'', ''12''), (''ab_y'', ''3456'')]\<rparr>))
        ''cookies.max.group.size'' = Some (Int_value 6)"
proof -
  let ?cs = "[(''sessionid'', ''abcdef''), (''ab.x'', ''12''), (''ab_y'', ''3456'')]"
  let ?r = "\<lparr>REQUEST_METHOD = ''GET'', path = ''/'', SERVER_NAME = Some ''localhost'',
        SERVER_PORT = 80, COOKIES = ?cs\<rparr>"
  have h1: "distinct (map fst (COOKIES ?r))" by simp
  have h2: "has_group (COOKIES ?r)"
    by (simp add: has_group_def grouped_def prefix_of_def)
  have names: "group_names (COOKIES ?r) = {''ab''}"
    by (simp add: group_names_def grouped_def prefix_of_def)
  have sum: "group_sum (COOKIES ?r) ''ab'' = 6"
    by (simp add: group_sum_def members_def grouped_def prefix_of_def cookie_size_def)
  have G: "largest_group_sum (COOKIES ?r) = 6"
    unfolding largest_group_sum_def names using sum by simp
  have M: "largest_cookie_size (COOKIES ?r) = 6"
    by (simp add: largest_cookie_size_def cookie_size_def)
  obtain name sz where
    "custom_attributes (snd (process_request True ?r)) ''cookies.max.group.name''
        = Some (Str_value name)"
    "custom_attributes (snd (process_request True ?r)) ''cookies.max.group.size''
        = Some (Int_value sz)"
    "if largest_group_sum (COOKIES ?r) < largest_cookie_size (COOKIES ?r)
       then sz = largest_cookie_size (COOKIES ?r)
          \<and> (\<exists>v. (name, v) \<in> set (COOKIES ?r) \<and> cookie_size (name, v) = sz)
       else sz = largest_group_sum (COOKIES ?r)
          \<and> name \<in> group_names (COOKIES ?r) \<and> group_sum (COOKIES ?r) name = sz"
    using max_group_reported [OF h1 h2] by blast
  then have "custom_attributes (snd (process_request True ?r)) ''cookies.max.group.name''
        = Some (Str_value ''ab'')"
    and "custom_attributes (snd (process_request True ?r)) ''cookies.max.group.size''
        = Some (Int_value 6)"
    unfolding G M names by simp_all
  with h1 h2 show ?thesis by simp
qed


text \<open>
  C2. For a request none of whose cookies belongs to a group the largest group is not
  reported at all. With the cookies \<open>sessionid\<close> (six characters) and \<open>lang\<close> (two) the
  largest cookie, counted as a group of one, would give \<open>cookies.max.group.name\<close>
  \<open>sessionid\<close> and \<open>cookies.max.group.size\<close> 6; the method raises \<open>ValueError\<close> at
  the \<open>max\<close> over the empty dict of groups instead, and neither attribute is set.
\<close>

theorem largest_group_unreported_without_group:
  "fst (process_request True
     \<lparr>REQUEST_METHOD = ''GET'', path = ''/'', SERVER_NAME = Some ''localhost'',
      SERVER_PORT = 80, COOKIES = [(''sessionid'', ''abcdef''), (''lang'', ''en'')]\<rparr>) = Inl ValueError
   \<and> custom_attributes (snd (process_request True
     \<lparr>REQUEST_METHOD = ''GET'', path = ''/'', SERVER_NAME = Some ''localhost'',
      SERVER_PORT = 80, COOKIES = [(''sessionid'', ''abcdef''), (''lang'', ''en'')]\<rparr>))
       ''cookies.max.group.name'' = None
   \<and> custom_attributes (snd (process_request True
     \<lparr>REQUEST_METHOD = ''GET'', path = ''/'', SERVER_NAME = Some ''localhost'',
      SERVER_PORT = 80, COOKIES = [(''sessionid'', ''abcdef''), (''lang'', ''en'')]\<rparr>))
       ''cookies.max.group.size'' = None"
  by (simp add: process_request_def dict_items_def dict_keys_def dict_setitem_def
      dict_getitem_def getitem0_def is_separator_def)


section \<open>The total\<close>

text \<open>
  Whenever \<open>cookies_total_size\<close> is reported, it is the sum of the lengths of the values
  of all cookies of the request, each counted once, grouped or not. It is reported
  exactly when some cookie belongs to a group.
\<close>

theorem total_size_reported:
  assumes "distinct (map fst (COOKIES request))"
  shows "custom_attributes (snd (process_request True request)) ''cookies_total_size'' =
     (if has_group (COOKIES request)
      then Some (Int_value (\<Sum>item\<leftarrow>COOKIES request. int (length (snd item))))
      else None)"
proof (cases "has_group (COOKIES request)")
  case False
  then show ?thesis by (simp add: process_request_ungrouped)
next
  case True
  let ?cs = "COOKIES request"
  obtain gs mname mval gname where run:
    "process_request True request =
       (Inr (),
        emit_group_sizes gs
        @ [Set_custom_attribute ''cookies.max.name'' (Str_value mname),
           Set_custom_attribute ''cookies.max.size'' (Int_value (cookie_size (mname, mval))),
           Set_custom_attribute ''cookies.max.group.name''
             (Str_value (if group_sum ?cs gname < cookie_size (mname, mval)
                         then mname else gname)),
           Set_custom_attribute ''cookies.max.group.size''
             (Int_value (if group_sum ?cs gname < cookie_size (mname, mval)
                         then cookie_size (mname, mval) else group_sum ?cs gname)),
           Set_custom_attribute ''cookies_total_size''
             (Int_value (sum_list (map cookie_size ?cs))),
           Log_debug ''cookies_total_size = %d''
             [Int_value (sum_list (map cookie_size ?cs))]])"
    using process_request_grouped [OF assms True] by metis
  have "cookie_size = (\<lambda>item. int (length (snd item)))"
    by (simp add: fun_eq_iff cookie_size_def)
  then have "sum_list (map cookie_size ?cs) = (\<Sum>item\<leftarrow>?cs. int (length (snd item)))"
    by simp
  then show ?thesis using True by (simp add: run custom_attributes_append)
qed


theorem total_size_reported_witness:
  "distinct (map fst (COOKIES \<lparr>REQUEST_METHOD = ''GET'', path = ''/'', SERVER_NAME = Some ''localhost'',
        SERVER_PORT = 80,
        COOKIES = [(''sessionid'', ''abcdef''), (''ab.x'', ''12''), (''ab_y'', ''345'')]\<rparr>))
   \<and> custom_attributes (snd (process_request True
        \<lparr>REQUEST_METHOD = ''GET'', path = ''/'', SERVER_NAME = Some ''localhost'', SERVER_PORT = 80,
         COOKIES = [(''sessionid'', ''abcdef''), (''ab.x'', ''12''), (''ab_y'', ''345'')]\<rparr>))
        ''cookies_total_size'' = Some (Int_value 11)"
proof -
  let ?cs = "[(''sessionid'', ''abcdef''), (''ab.x'', ''12''), (''ab_y'', ''345'')]"
  let ?r = "\<lparr>REQUEST_METHOD = ''GET'', path = ''/'', SERVER_NAME = Some ''localhost'',
        SERVER_PORT = 80, COOKIES = ?cs\<rparr>"
  have h: "distinct (map fst (COOKIES ?r))" by simp
  have g: "has_group (COOKIES ?r)"
    by (simp add: has_group_def grouped_def prefix_of_def)
  have "custom_attributes (snd (process_request True ?r)) ''cookies_total_size'' =
     Some (Int_value (\<Sum>item\<leftarrow>COOKIES ?r. int (length (snd item))))"
    using total_size_reported [OF h] g by (simp only: if_True)
  then have "custom_attributes (snd (process_request True ?r)) ''cookies_total_size'' =
     Some (Int_value 11)"
    by simp
  with h show ?thesis by simp
qed


text \<open>
  C7. For a request none of whose cookies belongs to a group no total is reported. With
  the cookies \<open>sessionid\<close> (three characters) and \<open>lang\<close> (two) the total is 5; the
  method raises \<open>ValueError\<close> at the \<open>max\<close> over the empty dict of groups before it
  sets \<open>cookies_total_size\<close>.
\<close>

theorem total_size_unreported_without_group:
  "fst (process_request True
     \<lparr>REQUEST_METHOD = ''GET'', path = ''/courses'', SERVER_NAME = Some ''localhost'',
      SERVER_PORT = 80, COOKIES = [(''sessionid'', ''abc''), (''lang'', ''en'')]\<rparr>) = Inl ValueError
   \<and> custom_attributes (snd (process_request True
     \<lparr>REQUEST_METHOD = ''GET'', path = ''/courses'', SERVER_NAME = Some ''localhost'',
      SERVER_PORT = 80, COOKIES = [(''sessionid'', ''abc''), (''lang'', ''en'')]\<rparr>))
       ''cookies_total_size'' = None"
  by (simp add: process_request_def dict_items_def dict_keys_def dict_setitem_def
      dict_getitem_def getitem0_def is_separator_def)


section \<open>The flag\<close>

text \<open>
  C10. With the waffle flag \<open>capture_cookie_sizes\<close> disabled, \<open>process_request\<close> returns
  at once for every request: it returns \<open>None\<close>, makes no call to
  \<open>set_custom_attribute\<close> or to the logger, and its outcome is the same whatever the
  request's cookies are.
\<close>

theorem process_request_flag_disabled:
  "process_request False request = (Inr (), [])
   \<and> process_request False (request\<lparr>COOKIES := cookies\<rparr>) = process_request False request"
  by (simp add: process_request_def)


section \<open>Requests without a cookie group\<close>

text \<open>
  C1. \<open>process_request\<close> does not complete for every cookie mapping. With the flag
  enabled, a request without cookies raises \<open>ValueError\<close> at the first \<open>max\<close> (the
  dict of cookie sizes is empty), and a request whose only cookie has no prefix raises
  \<open>ValueError\<close> at the second \<open>max\<close> (the dict of groups is empty). In both cases no
  attribute has been set and nothing has been logged.
\<close>

theorem process_request_raises_without_group:
  "process_request True
     \<lparr>REQUEST_METHOD = ''GET'', path = ''/'', SERVER_NAME = Some ''localhost'', SERVER_PORT = 80,
      COOKIES = []\<rparr> = (Inl ValueError, [])
   \<and> process_request True
     \<lparr>REQUEST_METHOD = ''GET'', path = ''/'', SERVER_NAME = Some ''localhost'', SERVER_PORT = 80,
      COOKIES = [(''sessionid'', ''abc'')]\<rparr> = (Inl ValueError, [])"
  by (simp add: process_request_def dict_items_def dict_keys_def dict_setitem_def
      dict_getitem_def getitem0_def is_separator_def)


section \<open>The largest cookie\<close>

text \<open>
  When some cookie belongs to a group, \<open>cookies.max.size\<close> is the largest length of a
  cookie value and \<open>cookies.max.name\<close> the name of a cookie of that length.
\<close>

lemma largest_cookie_reported:
  assumes "distinct (map fst (COOKIES request))" and "has_group (COOKIES request)"
  shows "\<exists>name v.
      custom_attributes (snd (process_request True request)) ''cookies.max.name''
        = Some (Str_value name)
    \<and> custom_attributes (snd (process_request True request)) ''cookies.max.size''
        = Some (Int_value (largest_cookie_size (COOKIES request)))
    \<and> (name, v) \<in> set (COOKIES request)
    \<and> int (length v) = largest_cookie_size (COOKIES request)"
proof -
  let ?cs = "COOKIES request"
  obtain gs mname mval gname where run:
    "process_request True request =
       (Inr (),
        emit_group_sizes gs
        @ [Set_custom_attribute ''cookies.max.name'' (Str_value mname),
           Set_custom_attribute ''cookies.max.size'' (Int_value (cookie_size (mname, mval))),
           Set_custom_attribute ''cookies.max.group.name''
             (Str_value (if group_sum ?cs gname < cookie_size (mname, mval)
                         then mname else gname)),
           Set_custom_attribute ''cookies.max.group.size''
             (Int_value (if group_sum ?cs gname < cookie_size (mname, mval)
                         then cookie_size (mname, mval) else group_sum ?cs gname)),
           Set_custom_attribute ''cookies_total_size''
             (Int_value (sum_list (map cookie_size ?cs))),
           Log_debug ''cookies_total_size = %d''
             [Int_value (sum_list (map cookie_size ?cs))]])"
    and mval: "(mname, mval) \<in> set ?cs"
    and le_m: "\<And>item. item \<in> set ?cs \<Longrightarrow> cookie_size item \<le> cookie_size (mname, mval)"
    using process_request_grouped [OF assms] by metis
  have M: "largest_cookie_size ?cs = cookie_size (mname, mval)"
    using mval le_m by (rule largest_cookie_size_eq)
  have 1: "custom_attributes (snd (process_request True request)) ''cookies.max.name''
        = Some (Str_value mname)"
    by (simp add: run custom_attributes_append)
  have 2: "custom_attributes (snd (process_request True request)) ''cookies.max.size''
        = Some (Int_value (largest_cookie_size ?cs))"
    by (simp add: run custom_attributes_append M)
  have 3: "int (length mval) = largest_cookie_size ?cs"
    by (simp add: M cookie_size_def)
  from 1 2 mval 3 show ?thesis by blast
qed

text \<open>
  C6. For a cookie mapping that is not empty but has no cookie in a group, neither
  \<open>cookies.max.size\<close> nor \<open>cookies.max.name\<close> is reported: the largest cookie has been
  found, but the \<open>max\<close> over the empty dict of groups raises \<open>ValueError\<close> before any
  attribute is set.
\<close>

theorem largest_cookie_unreported_without_group:
  "fst (process_request True
     \<lparr>REQUEST_METHOD = ''GET'', path = ''/dashboard'', SERVER_NAME = Some ''localhost'', SERVER_PORT = 80,
      COOKIES = [(''sessionid'', ''abcdef''), (''csrftoken'', ''xyz'')]\<rparr>) = Inl ValueError
   \<and> custom_attributes (snd (process_request True
     \<lparr>REQUEST_METHOD = ''GET'', path = ''/dashboard'', SERVER_NAME = Some ''localhost'', SERVER_PORT = 80,
      COOKIES = [(''sessionid'', ''abcdef''), (''csrftoken'', ''xyz'')]\<rparr>))
       ''cookies.max.size'' = None
   \<and> custom_attributes (snd (process_request True
     \<lparr>REQUEST_METHOD = ''GET'', path = ''/dashboard'', SERVER_NAME = Some ''localhost'', SERVER_PORT = 80,
      COOKIES = [(''sessionid'', ''abcdef''), (''csrftoken'', ''xyz'')]\<rparr>))
       ''cookies.max.name'' = None"
  by (simp add: process_request_def dict_items_def dict_keys_def dict_setitem_def
      dict_getitem_def getitem0_def is_separator_def)


section \<open>What the method does to the request\<close>

text \<open>
  C9. With the flag enabled, a request whose cookies form no group does not come back
  from \<open>process_request\<close> with \<open>None\<close>: the method raises \<open>ValueError\<close>, which ends the
  processing of the request.
\<close>

theorem process_request_aborts_request:
  "fst (process_request True
     \<lparr>REQUEST_METHOD = ''POST'', path = ''/login'', SERVER_NAME = Some ''localhost'', SERVER_PORT = 80,
      COOKIES = [(''csrftoken'', ''tok'')]\<rparr>) = Inl ValueError"
  by (simp add: process_request_def dict_items_def dict_keys_def dict_setitem_def
      dict_getitem_def getitem0_def is_separator_def)


section \<open>The course identifier of a URL\<close>

text \<open>
  C3. \<open>course_id_from_url\<close> returns \<open>None\<close> for \<open>None\<close> and for the empty string, for a
  URL that the pattern does not match (or matches without a \<open>course_id\<close> substring),
  and for a \<open>course_id\<close> substring that the key parser rejects with
  \<open>InvalidKeyError\<close>. For a non-empty URL with a \<open>course_id\<close> substring that the parser
  accepts it returns the parsed key. It never raises \<open>InvalidKeyError\<close>.
\<close>

theorem course_id_from_url_result:
  "course_id_from_url COURSE_REGEX_match CourseKey_from_string None = Inr None
   \<and> course_id_from_url COURSE_REGEX_match CourseKey_from_string (Some []) = Inr None
   \<and> (COURSE_REGEX_match u = None \<longrightarrow>
        course_id_from_url COURSE_REGEX_match CourseKey_from_string (Some u) = Inr None)
   \<and> (COURSE_REGEX_match u = Some m \<and> group_course_id m = None \<longrightarrow>
        course_id_from_url COURSE_REGEX_match CourseKey_from_string (Some u) = Inr None)
   \<and> (COURSE_REGEX_match u = Some m \<and> group_course_id m = Some course_id
        \<and> CourseKey_from_string course_id = Inl InvalidKeyError \<longrightarrow>
        course_id_from_url COURSE_REGEX_match CourseKey_from_string (Some u) = Inr None)
   \<and> (u \<noteq> [] \<and> COURSE_REGEX_match u = Some m \<and> group_course_id m = Some course_id
        \<and> CourseKey_from_string course_id = Inr k \<longrightarrow>
        course_id_from_url COURSE_REGEX_match CourseKey_from_string (Some u) = Inr (Some k))
   \<and> course_id_from_url COURSE_REGEX_match CourseKey_from_string url \<noteq> Inl InvalidKeyError"
  by (auto simp: course_id_from_url_def split: option.splits sum.splits)

theorem course_id_from_url_result_witness:
  "course_id_from_url
     (\<lambda>u. if u = ''/courses/edX/Demo/2024/info''
          then Some \<lparr>group_course_id = Some ''edX/Demo/2024''\<rparr> else None)
     (\<lambda>s. if s = ''edX/Demo/2024'' then Inr (''edX'', ''Demo'', ''2024'') else Inl InvalidKeyError)
     (Some ''/courses/edX/Demo/2024/info'') = Inr (Some (''edX'', ''Demo'', ''2024''))
   \<and> course_id_from_url
     (\<lambda>u. if u = ''/courses/edX/Demo/2024/info''
          then Some \<lparr>group_course_id = Some ''edX/Demo/2024''\<rparr> else None)
     (\<lambda>s. Inl InvalidKeyError :: error + string \<times> string \<times> string)
     (Some ''/courses/edX/Demo/2024/info'') = Inr None
   \<and> course_id_from_url
     (\<lambda>u. if u = ''/courses/edX/Demo/2024/info''
          then Some \<lparr>group_course_id = Some ''edX/Demo/2024''\<rparr> else None)
     (\<lambda>s. if s = ''edX/Demo/2024'' then Inr (''edX'', ''Demo'', ''2024'') else Inl InvalidKeyError)
     (Some ''/about'') = Inr None"
proof -
  let ?match = "\<lambda>u. if u = ''/courses/edX/Demo/2024/info''
          then Some \<lparr>group_course_id = Some ''edX/Demo/2024''\<rparr> else None"
  let ?parse = "\<lambda>s. if s = ''edX/Demo/2024'' then Inr (''edX'', ''Demo'', ''2024'')
          else Inl InvalidKeyError"
  let ?reject = "\<lambda>s::string. Inl InvalidKeyError :: error + string \<times> string \<times> string"
  have "course_id_from_url ?match ?parse (Some ''/courses/edX/Demo/2024/info'')
          = Inr (Some (''edX'', ''Demo'', ''2024''))"
    using course_id_from_url_result [where COURSE_REGEX_match = ?match
        and CourseKey_from_string = ?parse and u = "''/courses/edX/Demo/2024/info''"
        and m = "\<lparr>group_course_id = Some ''edX/Demo/2024''\<rparr>"
        and course_id = "''edX/Demo/2024''" and k = "(''edX'', ''Demo'', ''2024'')"]
    by simp
  moreover have "course_id_from_url ?match ?reject (Some ''/courses/edX/Demo/2024/info'')
          = Inr None"
    using course_id_from_url_result [where COURSE_REGEX_match = ?match
        and CourseKey_from_string = ?reject and u = "''/courses/edX/Demo/2024/info''"
        and m = "\<lparr>group_course_id = Some ''edX/Demo/2024''\<rparr>"
        and course_id = "''edX/Demo/2024''"]
    by simp
  moreover have "course_id_from_url ?match ?parse (Some ''/about'') = Inr None"
    using course_id_from_url_result [where COURSE_REGEX_match = ?match
        and CourseKey_from_string = ?parse and u = "''/about''"]
    by simp
  ultimately show ?thesis by blast
qed


section \<open>The trusted host\<close>

text \<open>
  C4. When \<open>settings.ALLOWED_HOSTS\<close> is a list or a tuple that does not contain \<open>'*'\<close>,
  \<open>safe_get_host\<close> returns what \<open>request.get_host()\<close> returns. In every other case (a
  list or tuple containing \<open>'*'\<close>, or a value of another type) it returns the site
  configuration's value for \<open>site_domain\<close>, asked for with \<open>settings.SITE_NAME\<close> as the
  default, and the result is the same whatever the request and its \<open>get_host\<close> are.
\<close>

theorem safe_get_host_result:
  "((ALLOWED_HOSTS conf = List_value hs \<or> ALLOWED_HOSTS conf = Tuple_value hs) \<and> ''*'' \<notin> set hs
      \<longrightarrow> safe_get_host conf get_value get_host request = get_host request)
   \<and> ((ALLOWED_HOSTS conf = List_value hs \<or> ALLOWED_HOSTS conf = Tuple_value hs) \<and> ''*'' \<in> set hs
      \<or> ALLOWED_HOSTS conf = String_value s \<or> ALLOWED_HOSTS conf = None_value
      \<longrightarrow> safe_get_host conf get_value get_host request
            = Inr (get_value ''site_domain'' (SITE_NAME conf))
        \<and> safe_get_host conf get_value get_host' request'
            = safe_get_host conf get_value get_host request)"
  by (auto simp: safe_get_host_def isinstance_list_tuple_def elements_def)

theorem safe_get_host_result_witness:
  "safe_get_host \<lparr>SITE_NAME = ''courses.example.com'', ALLOWED_HOSTS = List_value [''courses.example.com'']\<rparr>
     (\<lambda>name dflt. dflt) (\<lambda>r. Inr r) ''courses.example.com:8000''
     = Inr ''courses.example.com:8000''
   \<and> safe_get_host \<lparr>SITE_NAME = ''courses.example.com'', ALLOWED_HOSTS = Tuple_value [''*'']\<rparr>
     (\<lambda>name dflt. dflt) (\<lambda>r. Inr r) ''evil.example.org''
     = Inr ''courses.example.com''
   \<and> safe_get_host \<lparr>SITE_NAME = ''courses.example.com'', ALLOWED_HOSTS = String_value ''courses.example.com''\<rparr>
     (\<lambda>name dflt. dflt) (\<lambda>r. Inr r) ''evil.example.org''
     = Inr ''courses.example.com''"
proof -
  let ?get_value = "\<lambda>(name::string) (dflt::string). dflt"
  let ?get_host = "\<lambda>r::string. Inr r :: error + string"
  have "safe_get_host \<lparr>SITE_NAME = ''courses.example.com'',
           ALLOWED_HOSTS = List_value [''courses.example.com'']\<rparr>
         ?get_value ?get_host ''courses.example.com:8000'' = Inr ''courses.example.com:8000''"
    using safe_get_host_result [where get_value = ?get_value and get_host = ?get_host
        and conf = "\<lparr>SITE_NAME = ''courses.example.com'',
           ALLOWED_HOSTS = List_value [''courses.example.com'']\<rparr>"
        and hs = "[''courses.example.com'']" and request = "''courses.example.com:8000''"
        and get_host' = ?get_host and request' = "''courses.example.com:8000''"]
    by simp
  moreover have "safe_get_host \<lparr>SITE_NAME = ''courses.example.com'',
           ALLOWED_HOSTS = Tuple_value [''*'']\<rparr>
         ?get_value ?get_host ''evil.example.org'' = Inr ''courses.example.com''"
    using safe_get_host_result [where get_value = ?get_value and get_host = ?get_host
        and conf = "\<lparr>SITE_NAME = ''courses.example.com'',
           ALLOWED_HOSTS = Tuple_value [''*'']\<rparr>"
        and hs = "[''*'']" and request = "''evil.example.org''"
        and get_host' = ?get_host and request' = "''evil.example.org''"]
    by simp
  moreover have "safe_get_host \<lparr>SITE_NAME = ''courses.example.com'',
           ALLOWED_HOSTS = String_value ''courses.example.com''\<rparr>
         ?get_value ?get_host ''evil.example.org'' = Inr ''courses.example.com''"
    using safe_get_host_result [where get_value = ?get_value and get_host = ?get_host
        and conf = "\<lparr>SITE_NAME = ''courses.example.com'',
           ALLOWED_HOSTS = String_value ''courses.example.com''\<rparr>"
        and s = "''courses.example.com''" and request = "''evil.example.org''"
        and get_host' = ?get_host and request' = "''evil.example.org''"]
    by simp
  ultimately show ?thesis by blast
qed


section \<open>The stub request\<close>

text \<open>
  With a current request, \<open>get_request_or_stub\<close> returns it. Without one, whatever it
  returns is a GET request to the path \<open>/\<close> whose server name is the host name that
  \<open>urlparse\<close> finds, and whose port is 80.
\<close>

lemma get_request_or_stub_current:
  "get_request_or_stub (Some request) conf urlparse = Inr request"
  by (simp add: get_request_or_stub_def)

lemma get_request_or_stub_stub:
  assumes "get_request_or_stub None conf urlparse = Inr r"
  shows "r = \<lparr>REQUEST_METHOD = ''GET'', path = ''/'',
              SERVER_NAME = hostname (urlparse (''http://'' @ SITE_NAME conf)),
              SERVER_PORT = 80, COOKIES = []\<rparr>"
  using assms
  by (auto simp: get_request_or_stub_def RequestFactory_get_def Let_def split: sum.splits)


end
